theory Spec2Isabelle
  imports Complex_Main
begin

section \<open>Strings\<close>

text \<open>
  A Python \<open>str\<close> is a sequence of Unicode code points, so a string is a list of code
  points here (the rupee sign is one element, 8377). \<open>ascii\<close> turns a HOL string
  literal into such a list.
\<close>

type_synonym pystr = "nat list"

definition ascii :: "string \<Rightarrow> pystr" where
  "ascii s = map of_char s"

text \<open>
  \<open>str.isspace\<close> for one code point; \<open>str.strip()\<close> and the regular expression
  class \<open>\s\<close> use the same set.
\<close>

definition py_isspace :: "nat \<Rightarrow> bool" where
  "py_isspace c \<longleftrightarrow>
     (9 \<le> c \<and> c \<le> 13) \<or> (28 \<le> c \<and> c \<le> 32) \<or> c = 133 \<or> c = 160 \<or> c = 5760
     \<or> (8192 \<le> c \<and> c \<le> 8202) \<or> c = 8232 \<or> c = 8233 \<or> c = 8239 \<or> c = 8287
     \<or> c = 12288"

text \<open>Removal of the characters of a class from both ends; \<open>str.strip()\<close>.\<close>

definition trim :: "(nat \<Rightarrow> bool) \<Rightarrow> pystr \<Rightarrow> pystr" where
  "trim P s = rev (dropWhile P (rev (dropWhile P s)))"

definition strip :: "pystr \<Rightarrow> pystr" where
  "strip s = trim py_isspace s"

text \<open>\<open>s.replace(c, "")\<close> for a separator \<open>c\<close> of one character.\<close>

definition remove_char :: "nat \<Rightarrow> pystr \<Rightarrow> pystr" where
  "remove_char c s = filter (\<lambda>x. x \<noteq> c) s"

text \<open>\<open>sep.join(parts)\<close>.\<close>

fun join :: "pystr \<Rightarrow> pystr list \<Rightarrow> pystr" where
  "join sep [] = []"
| "join sep [x] = x"
| "join sep (x # y # ys) = x @ sep @ join sep (y # ys)"

section \<open>Text assembly\<close>

text \<open>
  What the code reads of a python-pptx shape: whether it has a text frame, the frame's
  paragraphs, each paragraph's runs, each run's text (which the code guards against
  \<open>None\<close> with \<open>run.text or ""\<close>).
\<close>

datatype run = Run (run_text: "pystr option")

datatype para = Para (runs: "run list")

datatype shape = Shape (text_frame: "para list option")

fun runs_loop :: "run list \<Rightarrow> pystr list \<Rightarrow> pystr list" where
  "runs_loop [] parts = parts"
| "runs_loop (r # rs) parts =
     (let t = strip (case run_text r of None \<Rightarrow> [] | Some s \<Rightarrow> s)
      in runs_loop rs (if t \<noteq> [] then parts @ [t] else parts))"

fun paragraphs_loop :: "para list \<Rightarrow> pystr list \<Rightarrow> pystr list" where
  "paragraphs_loop [] parts = parts"
| "paragraphs_loop (p # ps) parts = paragraphs_loop ps (runs_loop (runs p) parts)"

definition extract_runs_text :: "shape \<Rightarrow> pystr" where
  "extract_runs_text sh =
     (let parts = (case text_frame sh of
                     None \<Rightarrow> []
                   | Some paragraphs \<Rightarrow> paragraphs_loop paragraphs [])
      in strip (join (ascii '' '') parts))"

text \<open>The trimmed text of a run, as the loop body computes it.\<close>

definition trimmed :: "run \<Rightarrow> pystr" where
  "trimmed r = strip (case run_text r of None \<Rightarrow> [] | Some s \<Rightarrow> s)"

lemma runs_loop_eq:
  "runs_loop rs parts = parts @ filter (\<lambda>t. t \<noteq> []) (map trimmed rs)"
  by (induction rs arbitrary: parts) (simp_all add: trimmed_def Let_def)

lemma paragraphs_loop_eq:
  "paragraphs_loop ps parts
     = parts @ filter (\<lambda>t. t \<noteq> []) (map trimmed (concat (map runs ps)))"
  by (induction ps arbitrary: parts) (simp_all add: runs_loop_eq)

lemma rev_dropWhile_rev_Cons:
  "\<not> P x \<Longrightarrow> rev (dropWhile P (rev (x # xs))) = x # rev (dropWhile P (rev xs))"
  by (simp add: dropWhile_append)

lemma trim_id:
  assumes "s \<noteq> []" "\<not> P (hd s)" "\<not> P (last s)"
  shows "trim P s = s"
proof -
  from assms have a: "dropWhile P s = s"
    by (cases s) simp_all
  from assms have "dropWhile P (rev s) = rev s"
    by (cases "rev s") (simp_all add: last_rev [symmetric] hd_rev)
  with a show ?thesis by (simp add: trim_def)
qed

lemma trim_hd: "trim P s \<noteq> [] \<Longrightarrow> \<not> P (hd (trim P s))"
proof -
  assume ne: "trim P s \<noteq> []"
  let ?d = "dropWhile P s"
  have d: "?d \<noteq> []"
  proof
    assume a: "?d = []"
    show False using ne unfolding trim_def a by simp
  qed
  then have h: "\<not> P (hd ?d)" by (rule hd_dropWhile)
  from d obtain x xs where x: "?d = x # xs" by (cases ?d) simp_all
  with h have nx: "\<not> P x" by simp
  have "trim P s = x # rev (dropWhile P (rev xs))"
    unfolding trim_def x using nx by (rule rev_dropWhile_rev_Cons [of P x xs])
  with nx show ?thesis by simp
qed

lemma trim_last: "trim P s \<noteq> [] \<Longrightarrow> \<not> P (last (trim P s))"
proof -
  assume ne: "trim P s \<noteq> []"
  let ?r = "dropWhile P (rev (dropWhile P s))"
  have r: "?r \<noteq> []" using ne unfolding trim_def by simp
  then have "\<not> P (hd ?r)" by (rule hd_dropWhile)
  moreover have "last (trim P s) = hd ?r"
    unfolding trim_def using r by (simp only: last_rev)
  ultimately show ?thesis by simp
qed


lemma set_trim_subset: "set (trim P s) \<subseteq> set s"
proof -
  have "set (trim P s) = set (dropWhile P (rev (dropWhile P s)))"
    by (simp add: trim_def)
  also have "\<dots> \<subseteq> set (rev (dropWhile P s))" by (rule set_dropWhileD [THEN subsetI])
  also have "\<dots> \<subseteq> set s" using set_dropWhileD [of _ P s] by auto
  finally show ?thesis .
qed


lemma strip_hd: "strip s \<noteq> [] \<Longrightarrow> \<not> py_isspace (hd (strip s))"
  unfolding strip_def by (rule trim_hd)

lemma strip_last: "strip s \<noteq> [] \<Longrightarrow> \<not> py_isspace (last (strip s))"
  unfolding strip_def by (rule trim_last)

lemma strip_idem_ends:
  "s \<noteq> [] \<Longrightarrow> \<not> py_isspace (hd s) \<Longrightarrow> \<not> py_isspace (last s) \<Longrightarrow> strip s = s"
  unfolding strip_def by (rule trim_id)

lemma join_Cons:
  "join sep (x # xs) = (if xs = [] then x else x @ sep @ join sep xs)"
  by (cases xs) simp_all

lemma join_ends:
  assumes "parts \<noteq> []" "\<forall>t\<in>set parts. t \<noteq> []"
  shows "join sep parts \<noteq> [] \<and> hd (join sep parts) = hd (hd parts)
         \<and> last (join sep parts) = last (last parts)"
  using assms
proof (induction parts)
  case Nil
  then show ?case by simp
next
  case (Cons x xs)
  show ?case
  proof (cases "xs = []")
    case True
    with Cons.prems show ?thesis by simp
  next
    case False
    with Cons have ih: "join sep xs \<noteq> []" "last (join sep xs) = last (last xs)"
      by simp_all
    from Cons.prems have "x \<noteq> []" by simp
    with False ih show ?thesis by (simp add: join_Cons)
  qed
qed

lemma strip_join:
  assumes "\<forall>t\<in>set parts. t \<noteq> [] \<and> \<not> py_isspace (hd t) \<and> \<not> py_isspace (last t)"
  shows "strip (join sep parts) = join sep parts"
proof (cases "parts = []")
  case True
  then show ?thesis by (simp add: strip_def trim_def)
next
  case False
  from assms have ne: "\<forall>t\<in>set parts. t \<noteq> []" by blast
  note je = join_ends [OF False ne, of sep]
  from False assms have "\<not> py_isspace (hd (hd parts))" "\<not> py_isspace (last (last parts))"
    by simp_all
  with je show ?thesis by (intro strip_idem_ends) simp_all
qed

lemma trim_decomposition:
  "s = takeWhile P s @ trim P s @ rev (takeWhile P (rev (dropWhile P s)))"
proof -
  let ?d = "dropWhile P s"
  have "rev (dropWhile P (rev ?d)) @ rev (takeWhile P (rev ?d))
      = rev (takeWhile P (rev ?d) @ dropWhile P (rev ?d))"
    by (simp only: rev_append)
  also have "\<dots> = rev (rev ?d)" by (simp only: takeWhile_dropWhile_id)
  also have "\<dots> = ?d" by (simp only: rev_rev_ident)
  finally have d: "trim P s @ rev (takeWhile P (rev ?d)) = ?d"
    unfolding trim_def .
  have "s = takeWhile P s @ ?d" by (simp only: takeWhile_dropWhile_id)
  then show ?thesis unfolding d .
qed

text \<open>
  Trimming a run: its text is the trimmed text between two runs of whitespace, and the
  trimmed text neither starts nor ends with whitespace.
\<close>

lemma trimmed_run:
  "\<exists>a b. (case run_text r of None \<Rightarrow> [] | Some s \<Rightarrow> s) = a @ trimmed r @ b
         \<and> list_all py_isspace a \<and> list_all py_isspace b
         \<and> (trimmed r = [] \<or> \<not> py_isspace (hd (trimmed r)) \<and> \<not> py_isspace (last (trimmed r)))"
proof -
  let ?s = "case run_text r of None \<Rightarrow> [] | Some s \<Rightarrow> s"
  let ?a = "takeWhile py_isspace ?s"
  let ?b = "rev (takeWhile py_isspace (rev (dropWhile py_isspace ?s)))"
  have t: "trimmed r = trim py_isspace ?s" by (simp add: trimmed_def strip_def)
  have "?s = ?a @ trimmed r @ ?b"
    unfolding t by (rule trim_decomposition)
  moreover have "list_all py_isspace ?a" "list_all py_isspace ?b"
    by (auto simp: list_all_iff dest: set_takeWhileD)
  moreover have "trimmed r = [] \<or> \<not> py_isspace (hd (trimmed r)) \<and> \<not> py_isspace (last (trimmed r))"
    unfolding t using trim_hd [of py_isspace ?s] trim_last [of py_isspace ?s] by blast
  ultimately show ?thesis by blast
qed

text \<open>
  C7. For a shape with a text frame the assembled text is the run texts, each trimmed,
  the empty ones dropped, joined by one space in the order of the runs across all
  paragraphs (the final \<open>strip\<close> of the code changes nothing). The trimmed text of a
  run is its text without the whitespace at its two ends. The rupee sign (code point
  8377) and \<open>1,234\<close>, in one paragraph or in two, give the rupee sign, one space,
  \<open>1,234\<close>; runs padded with whitespace, a run of whitespace only and a run without
  text are assembled without the padding and without those runs; a shape without a text
  frame gives the empty string.
\<close>

theorem extract_runs_text_joins_trimmed_runs:
  "extract_runs_text (Shape (Some ps))
     = join (ascii '' '') (filter (\<lambda>t. t \<noteq> []) (map trimmed (concat (map runs ps))))
   \<and> (\<exists>a b. (case run_text r of None \<Rightarrow> [] | Some s \<Rightarrow> s) = a @ trimmed r @ b
          \<and> list_all py_isspace a \<and> list_all py_isspace b
          \<and> (trimmed r = []
              \<or> \<not> py_isspace (hd (trimmed r)) \<and> \<not> py_isspace (last (trimmed r))))
   \<and> trimmed (Run (Some ([32, 9] @ ascii ''a b'' @ [160, 10]))) = ascii ''a b''
   \<and> trimmed (Run (Some [32, 9, 12288])) = []
   \<and> trimmed (Run None) = []
   \<and> extract_runs_text (Shape (Some [Para [Run (Some [8377]), Run (Some (ascii ''1,234''))]]))
     = [8377] @ ascii '' '' @ ascii ''1,234''
   \<and> extract_runs_text (Shape (Some [Para [Run (Some [8377])],
                                       Para [Run (Some (ascii ''1,234''))]]))
     = [8377] @ ascii '' '' @ ascii ''1,234''
   \<and> extract_runs_text
        (Shape (Some [Para [Run (Some (ascii '' a '')), Run (Some (ascii ''   '')), Run None],
                      Para [],
                      Para [Run (Some ([9] @ ascii ''b c'' @ [10])), Run (Some [])]]))
     = ascii ''a b c''
   \<and> extract_runs_text (Shape (Some [Para [Run (Some (ascii '' '')), Run None]])) = []
   \<and> extract_runs_text (Shape None) = []"
proof -
  let ?parts = "filter (\<lambda>t. t \<noteq> []) (map trimmed (concat (map runs ps)))"
  have "\<forall>t\<in>set ?parts. t \<noteq> [] \<and> \<not> py_isspace (hd t) \<and> \<not> py_isspace (last t)"
    by (auto simp: trimmed_def strip_hd strip_last)
  then have "strip (join (ascii '' '') ?parts) = join (ascii '' '') ?parts"
    by (rule strip_join)
  then have g: "extract_runs_text (Shape (Some ps)) = join (ascii '' '') ?parts"
    by (simp add: extract_runs_text_def paragraphs_loop_eq)
  have t: "trimmed (Run (Some ([32, 9] @ ascii ''a b'' @ [160, 10]))) = ascii ''a b''"
    "trimmed (Run (Some [32, 9, 12288])) = []" "trimmed (Run None) = []"
    by (simp_all add: trimmed_def strip_def trim_def py_isspace_def ascii_def)
  have e1: "extract_runs_text (Shape (Some [Para [Run (Some [8377]), Run (Some (ascii ''1,234''))]]))
     = [8377] @ ascii '' '' @ ascii ''1,234''"
    by (simp add: extract_runs_text_def strip_def trim_def py_isspace_def ascii_def)
  have e2: "extract_runs_text (Shape (Some [Para [Run (Some [8377])],
                                       Para [Run (Some (ascii ''1,234''))]]))
     = [8377] @ ascii '' '' @ ascii ''1,234''"
    by (simp add: extract_runs_text_def strip_def trim_def py_isspace_def ascii_def)
  have e3: "extract_runs_text
        (Shape (Some [Para [Run (Some (ascii '' a '')), Run (Some (ascii ''   '')), Run None],
                      Para [],
                      Para [Run (Some ([9] @ ascii ''b c'' @ [10])), Run (Some [])]]))
     = ascii ''a b c''"
    by (simp add: extract_runs_text_def strip_def trim_def py_isspace_def ascii_def)
  have e4: "extract_runs_text (Shape (Some [Para [Run (Some (ascii '' '')), Run None]])) = []"
    by (simp add: extract_runs_text_def strip_def trim_def py_isspace_def ascii_def)
  have e5: "extract_runs_text (Shape None) = []"
    by (simp add: extract_runs_text_def strip_def trim_def)
  from g trimmed_run [of r] t e1 e2 e3 e4 e5 show ?thesis by (intro conjI)
qed

section \<open>Floating-point numbers\<close>

text \<open>
  A Python \<open>float\<close> is an IEEE 754 binary64 number: a finite value (kept as the exact
  rational it denotes), an infinity, or not-a-number. The sign of zero is not modelled
  (\<open>-0.0 == 0.0\<close> in Python, and no comparison of the program tells them apart).
\<close>

datatype pyfloat = Fin rat | PInf | NInf | NaN

definition pow2 :: "int \<Rightarrow> rat" where
  "pow2 e = (if 0 \<le> e then 2 ^ nat e else 1 / 2 ^ nat (- e))"

definition pow10 :: "int \<Rightarrow> rat" where
  "pow10 e = (if 0 \<le> e then 10 ^ nat e else 1 / 10 ^ nat (- e))"

text \<open>\<open>ilog2 n\<close> is the position of the highest set bit of \<open>n\<close>.\<close>

function ilog2 :: "int \<Rightarrow> int" where
  "ilog2 n = (if n < 2 then 0 else 1 + ilog2 (n div 2))"
  by pat_completeness auto
termination
  by (relation "measure nat") auto

declare ilog2.simps [simp del]

text \<open>The binary exponent \<open>e\<close> of a positive rational: \<open>2^e \<le> a < 2^(e+1)\<close>.\<close>

definition binade :: "rat \<Rightarrow> int" where
  "binade a =
     (if 1 \<le> a then ilog2 \<lfloor>a\<rfloor>
      else (let n = \<lceil>1 / a\<rceil> in if n \<le> 1 then 0 else - (1 + ilog2 (n - 1))))"

definition round_half_even :: "rat \<Rightarrow> int" where
  "round_half_even q =
     (let f = \<lfloor>q\<rfloor>; d = q - of_int f
      in if d < 1 / 2 then f else if 1 / 2 < d then f + 1 else if even f then f else f + 1)"

text \<open>
  Rounding of an exact value to the nearest binary64 number, ties to even: 53 significant
  bits, exponents from -1022 (below that, the spacing stays \<open>2^-1074\<close>), and overflow to
  an infinity from \<open>2^1024 - 2^970\<close> on (half a unit in the last place above the largest
  finite number). Every arithmetic operation and every conversion from a decimal numeral
  rounds its exact result this way.
\<close>

definition to_double :: "rat \<Rightarrow> pyfloat" where
  "to_double q =
     (let a = \<bar>q\<bar>
      in if 2 ^ 1024 - 2 ^ 970 \<le> a then (if 0 < q then PInf else NInf)
         else if q = 0 then Fin 0
         else
           (let u = pow2 (max (binade a) (- 1022) - 52);
                r = of_int (round_half_even (a / u)) * u
            in Fin (if 0 < q then r else - r)))"

text \<open>
  The exceptions of the model. All of them derive from Python's \<open>Exception\<close>, so an
  \<open>except Exception\<close> clause catches each; \<open>LibraryError\<close> stands for whatever
  python-pptx or zipfile raise on bytes they cannot read.
\<close>

datatype exn = ValueError | ZeroDivisionError | LibraryError nat

text \<open>
  Float division: the quotient of two floats for a divisor other than zero, and \<open>/\<close>,
  which raises on a zero divisor.
\<close>

fun quotient :: "pyfloat \<Rightarrow> pyfloat \<Rightarrow> pyfloat" where
  "quotient NaN y = NaN"
| "quotient x NaN = NaN"
| "quotient (Fin a) (Fin b) = to_double (a / b)"
| "quotient (Fin a) y = Fin 0"
| "quotient PInf (Fin b) = (if 0 < b then PInf else NInf)"
| "quotient NInf (Fin b) = (if 0 < b then NInf else PInf)"
| "quotient x y = NaN"

definition fdiv :: "pyfloat \<Rightarrow> pyfloat \<Rightarrow> exn + pyfloat" where
  "fdiv x y = (if y = Fin 0 then Inl ZeroDivisionError else Inr (quotient x y))"

text \<open>Float multiplication.\<close>

fun fmul :: "pyfloat \<Rightarrow> pyfloat \<Rightarrow> pyfloat" where
  "fmul NaN y = NaN"
| "fmul x NaN = NaN"
| "fmul (Fin a) (Fin b) = to_double (a * b)"
| "fmul (Fin a) PInf = (if a = 0 then NaN else if 0 < a then PInf else NInf)"
| "fmul (Fin a) NInf = (if a = 0 then NaN else if 0 < a then NInf else PInf)"
| "fmul PInf (Fin b) = (if b = 0 then NaN else if 0 < b then PInf else NInf)"
| "fmul NInf (Fin b) = (if b = 0 then NaN else if 0 < b then NInf else PInf)"
| "fmul PInf PInf = PInf"
| "fmul NInf NInf = PInf"
| "fmul x y = NInf"

text \<open>
  \<open>round(x, 2)\<close> on a float: the exact value of \<open>x\<close> rounded to two decimals, ties to
  even, and the decimal result converted back to the nearest double; infinities and
  not-a-number are returned as they are.
\<close>

fun py_round2 :: "pyfloat \<Rightarrow> pyfloat" where
  "py_round2 (Fin a) = to_double (of_int (round_half_even (a * 100)) / 100)"
| "py_round2 x = x"

section \<open>Parsing numbers\<close>

text \<open>
  The decimal digits of Python strings are those of Unicode (category Nd): the digits
  \<open>str.isdecimal\<close> accepts, \<open>float()\<close> reads and the class \<open>\d\<close> of \<open>re\<close> matches. Every
  script has its ten digits at consecutive code points, from its zero on; the zeros
  beyond ASCII are listed here (Unicode 14, the version of Python 3.11).
\<close>

definition unicode_zeros :: "nat list" where
  "unicode_zeros =
     [1632, 1776, 1984, 2406, 2534, 2662, 2790, 2918, 3046, 3174, 3302, 3430, 3558, 3664,
      3792, 3872, 4160, 4240, 6112, 6160, 6470, 6608, 6784, 6800, 6992, 7088, 7232, 7248,
      42528, 43216, 43264, 43472, 43504, 43600, 44016, 65296, 66720, 68912, 69734, 69872,
      69942, 70096, 70384, 70736, 70864, 71248, 71360, 71472, 71904, 72016, 72784, 73040,
      73120, 92768, 92864, 93008, 120782, 120792, 120802, 120812, 120822, 123200, 123632,
      125264, 130032]"

text \<open>The value of a decimal digit, \<open>None\<close> for any other character.\<close>

definition digit_value :: "nat \<Rightarrow> nat option" where
  "digit_value c =
     (if c < 128 then (if 48 \<le> c \<and> c \<le> 57 then Some (c - 48) else None)
      else map_option (\<lambda>z. c - z) (find (\<lambda>z. z \<le> c \<and> c \<le> z + 9) unicode_zeros))"

definition is_decimal :: "nat \<Rightarrow> bool" where
  "is_decimal c \<longleftrightarrow> digit_value c \<noteq> None"

text \<open>The number a string of decimal digits writes.\<close>

definition digits_val :: "pystr \<Rightarrow> nat" where
  "digits_val ds =
     foldl (\<lambda>a c. 10 * a + (case digit_value c of None \<Rightarrow> 0 | Some d \<Rightarrow> d)) 0 ds"

definition ascii_lower :: "nat \<Rightarrow> nat" where
  "ascii_lower c = (if 65 \<le> c \<and> c \<le> 90 then c + 32 else c)"

text \<open>
  \<open>float()\<close> first makes its argument ASCII: a character below 127 stays, any other
  whitespace becomes a space, any other decimal digit the ASCII digit of its value, and
  anything else a question mark (which no number contains). It then works on ASCII
  digits and strips ASCII whitespace.
\<close>

definition float_transform :: "nat \<Rightarrow> nat" where
  "float_transform c =
     (if c < 127 then c
      else if py_isspace c then 32
      else (case digit_value c of None \<Rightarrow> 63 | Some d \<Rightarrow> 48 + d))"

definition ascii_digit :: "nat \<Rightarrow> bool" where
  "ascii_digit c \<longleftrightarrow> 48 \<le> c \<and> c \<le> 57"

definition ascii_space :: "nat \<Rightarrow> bool" where
  "ascii_space c \<longleftrightarrow> (9 \<le> c \<and> c \<le> 13) \<or> c = 32"

text \<open>
  Underscores in a numeric literal: each must stand between two digits; the literal
  without them is returned, \<open>None\<close> when one is misplaced. \<open>prev\<close> is the previous
  character (0 at the start).
\<close>

fun strip_underscores :: "nat \<Rightarrow> pystr \<Rightarrow> pystr option" where
  "strip_underscores prev [] = (if prev = 95 then None else Some [])"
| "strip_underscores prev (c # cs) =
     (if c = 95 then (if ascii_digit prev then strip_underscores c cs else None)
      else if prev = 95 \<and> \<not> ascii_digit c then None
      else map_option ((#) c) (strip_underscores c cs))"

text \<open>An optional sign: whether it is a minus, and the rest.\<close>

fun take_sign :: "pystr \<Rightarrow> bool \<times> pystr" where
  "take_sign [] = (False, [])"
| "take_sign (c # cs) =
     (if c = 45 then (True, cs) else if c = 43 then (False, cs) else (False, c # cs))"

text \<open>
  The exponent part of a decimal literal: nothing, or \<open>e\<close> or \<open>E\<close>, an optional sign
  and at least one digit.
\<close>

definition parse_exponent :: "pystr \<Rightarrow> int option" where
  "parse_exponent s =
     (case s of
        [] \<Rightarrow> Some 0
      | c # cs \<Rightarrow>
          if c = 101 \<or> c = 69 then
            (let (neg, ds) = take_sign cs
             in if ds \<noteq> [] \<and> list_all ascii_digit ds
                then Some (if neg then - int (digits_val ds) else int (digits_val ds))
                else None)
          else None)"

text \<open>
  A decimal literal without sign: digits, optionally a point and more digits (at least
  one digit on either side of the point), optionally an exponent. The result is its exact
  value.
\<close>

definition parse_decimal :: "pystr \<Rightarrow> rat option" where
  "parse_decimal s =
     (let ip = takeWhile ascii_digit s;
          r1 = dropWhile ascii_digit s;
          fp = (case r1 of [] \<Rightarrow> [] | c # cs \<Rightarrow> if c = 46 then takeWhile ascii_digit cs else []);
          r2 = (case r1 of [] \<Rightarrow> [] | c # cs \<Rightarrow> if c = 46 then dropWhile ascii_digit cs else r1)
      in if ip = [] \<and> fp = [] then None
         else (case parse_exponent r2 of
                 None \<Rightarrow> None
               | Some e \<Rightarrow>
                   Some (of_nat (digits_val (ip @ fp)) * pow10 (e - int (length fp)))))"

text \<open>
  \<open>float(s)\<close> for a string \<open>s\<close>: the string is made ASCII and surrounding whitespace is
  stripped; then an optional sign followed by \<open>inf\<close>, \<open>infinity\<close> or \<open>nan\<close> in any
  letter case, or by a decimal literal, which is rounded to the nearest double (to an
  infinity when it is too large). Anything else raises \<open>ValueError\<close>.
\<close>

definition py_float :: "pystr \<Rightarrow> exn + pyfloat" where
  "py_float s =
     (case strip_underscores 0 (trim ascii_space (map float_transform s)) of
        None \<Rightarrow> Inl ValueError
      | Some t \<Rightarrow>
          (let (neg, body) = take_sign t; low = map ascii_lower body
           in if low = ascii ''inf'' \<or> low = ascii ''infinity''
              then Inr (if neg then NInf else PInf)
              else if low = ascii ''nan'' then Inr NaN
              else (case parse_decimal body of
                      None \<Rightarrow> Inl ValueError
                    | Some q \<Rightarrow> Inr (to_double (if neg then - q else q)))))"

text \<open>
  The two converters of the program. The argument is what \<open>dict.get\<close> returned: a
  string, or \<open>None\<close>. The result is \<open>Inr\<close> of what the function returns, and would be
  \<open>Inl\<close> of an exception that left it.
\<close>

definition parse_percent :: "pystr option \<Rightarrow> exn + pyfloat option" where
  "parse_percent val =
     (case val of
        None \<Rightarrow> Inr None
      | Some v \<Rightarrow>
          if v = [] then Inr None
          else (case py_float (strip (remove_char 37 v)) of
                  Inl e \<Rightarrow> Inr None
                | Inr x \<Rightarrow> Inr (Some x)))"

definition parse_currency :: "pystr option \<Rightarrow> exn + pyfloat option" where
  "parse_currency val =
     (case val of
        None \<Rightarrow> Inr None
      | Some v \<Rightarrow>
          if v = [] then Inr None
          else (case py_float (remove_char 32 (remove_char 44 v)) of
                  Inl e \<Rightarrow> Inr None
                | Inr x \<Rightarrow> Inr (Some x)))"

text \<open>Evaluation of the rounding on numerals.\<close>

lemma floor_rat_div_numeral:
  "\<lfloor>numeral a / numeral b :: rat\<rfloor> = numeral a div numeral b"
  by (metis floor_divide_of_int_eq of_int_numeral)

lemma floor_rat_one_div_numeral:
  "\<lfloor>1 / numeral b :: rat\<rfloor> = 1 div numeral b"
  by (metis floor_divide_of_int_eq of_int_numeral of_int_1)

lemma ceiling_rat_div_numeral:
  "\<lceil>numeral a / numeral b :: rat\<rceil> = - (- numeral a div numeral b)"
  unfolding ceiling_def
  by (metis floor_divide_of_int_eq of_int_numeral of_int_minus minus_divide_left)

lemma ceiling_rat_one_div_numeral:
  "\<lceil>1 / numeral b :: rat\<rceil> = - (- 1 div numeral b)"
  unfolding ceiling_def
  by (metis floor_divide_of_int_eq of_int_numeral of_int_minus minus_divide_left of_int_1)

lemmas double_eval = floor_rat_div_numeral floor_rat_one_div_numeral ceiling_rat_div_numeral
  ceiling_rat_one_div_numeral to_double_def binade_def ilog2.simps pow2_def
  round_half_even_def Let_def

lemmas float_eval = double_eval py_float_def strip_def trim_def float_transform_def
  ascii_space_def py_isspace_def ascii_def ascii_lower_def parse_decimal_def
  parse_exponent_def ascii_digit_def digit_value_def unicode_zeros_def digits_val_def
  pow10_def remove_char_def

section \<open>Properties of the converters\<close>

lemma ascii_digit_value: "ascii_digit c \<Longrightarrow> digit_value c = Some (c - 48)"
  by (simp add: ascii_digit_def digit_value_def)

lemma ascii_digit_decimal: "ascii_digit c \<Longrightarrow> is_decimal c"
  by (simp add: is_decimal_def ascii_digit_value)







lemma transform_below_127: "c < 127 \<Longrightarrow> float_transform c = c"
  by (simp add: float_transform_def)


















lemma parse_percent_total: "\<exists>r. parse_percent v = Inr r"
  by (auto simp: parse_percent_def split: option.splits sum.splits)

lemma parse_currency_total: "\<exists>r. parse_currency v = Inr r"
  by (auto simp: parse_currency_def split: option.splits sum.splits)























section \<open>Pattern matching\<close>

text \<open>
  The regular expressions of \<open>PATTERNS\<close> are sequences of character classes, each taken
  once, zero or more times (\<open>*\<close>) or one or more times (\<open>+\<close>), with one capturing
  group. A pattern is kept as the items before the group, the items of the group and the
  items after it.
\<close>

datatype quant = One | Star | Plus

type_synonym item = "(nat \<Rightarrow> bool) \<times> quant"

datatype pattern = Pattern (before_group: "item list") (in_group: "item list")
  (after_group: "item list")

text \<open>
  The remainders of \<open>s\<close> after taking characters of a class from its front, the longest
  run first: the order in which a greedy quantifier tries them.
\<close>

fun greedy :: "(nat \<Rightarrow> bool) \<Rightarrow> pystr \<Rightarrow> pystr list" where
  "greedy p [] = [[]]"
| "greedy p (c # cs) = (if p c then greedy p cs @ [c # cs] else [c # cs])"

text \<open>
  Backtracking matching of a sequence of items at the front of \<open>s\<close>: the remainders
  after every way to match, in the order in which the matcher of \<open>re\<close> finds them.
\<close>

fun match_items :: "item list \<Rightarrow> pystr \<Rightarrow> pystr list" where
  "match_items [] s = [s]"
| "match_items ((p, One) # its) s =
     (case s of [] \<Rightarrow> [] | c # cs \<Rightarrow> if p c then match_items its cs else [])"
| "match_items ((p, Star) # its) s = concat (map (match_items its) (greedy p s))"
| "match_items ((p, Plus) # its) s = concat (map (match_items its) (butlast (greedy p s)))"

text \<open>
  \<open>pattern.match\<close> at the front of \<open>s\<close>: the text of group 1 in the first way to match
  the whole pattern, \<open>None\<close> when there is none.
\<close>

definition match_at :: "pattern \<Rightarrow> pystr \<Rightarrow> pystr option" where
  "match_at pat s =
     (case concat (map (\<lambda>r1. concat (map (\<lambda>r2. map (\<lambda>r3. (r1, r2))
                                               (match_items (after_group pat) r2))
                                    (match_items (in_group pat) r1)))
                       (match_items (before_group pat) s)) of
        [] \<Rightarrow> None
      | (r1, r2) # _ \<Rightarrow> Some (take (length r1 - length r2) r1))"

text \<open>\<open>pattern.search(s)\<close> followed by \<open>m.group(1)\<close>: the leftmost match.\<close>

fun search :: "pattern \<Rightarrow> pystr \<Rightarrow> pystr option" where
  "search pat [] = match_at pat []"
| "search pat (c # cs) =
     (case match_at pat (c # cs) of Some g \<Rightarrow> Some g | None \<Rightarrow> search pat cs)"

text \<open>
  A character of the pattern under \<open>re.I\<close>: besides the two cases of an ASCII letter,
  \<open>i\<close> matches the dotted capital and the dotless small i (304, 305), \<open>s\<close> the long s
  (383) and \<open>k\<close> the Kelvin sign (8490).
\<close>

definition casefold :: "nat \<Rightarrow> nat" where
  "casefold x =
     (if 65 \<le> x \<and> x \<le> 90 then x + 32
      else if x = 304 \<or> x = 305 then 105
      else if x = 383 then 115
      else if x = 8490 then 107
      else x)"

definition lit :: "nat \<Rightarrow> nat \<Rightarrow> bool" where
  "lit c x \<longleftrightarrow> casefold x = casefold c"

definition word :: "string \<Rightarrow> item list" where
  "word w = map (\<lambda>c. (lit (of_char c), One)) w"

text \<open>
  The classes of the patterns: \<open>\s\<close>, \<open>[:\s]\<close>, \<open>[\<dots>Rs\.\s]\<close> (the rupee sign 8377, the
  letters under \<open>re.I\<close>), \<open>[\d,]\<close>, \<open>[\d\.]\<close> and \<open>[^\(]\<close>. \<open>\d\<close> is any decimal
  digit of Unicode.
\<close>

definition colon_space :: "nat \<Rightarrow> bool" where
  "colon_space c \<longleftrightarrow> c = 58 \<or> py_isspace c"

definition currency_mark :: "nat \<Rightarrow> bool" where
  "currency_mark c \<longleftrightarrow> c = 8377 \<or> lit 82 c \<or> lit 115 c \<or> c = 46 \<or> py_isspace c"

definition digit_comma :: "nat \<Rightarrow> bool" where
  "digit_comma c \<longleftrightarrow> is_decimal c \<or> c = 44"

definition digit_point :: "nat \<Rightarrow> bool" where
  "digit_point c \<longleftrightarrow> is_decimal c \<or> c = 46"

definition not_paren :: "nat \<Rightarrow> bool" where
  "not_paren c \<longleftrightarrow> c \<noteq> 40"

text \<open>The groups \<open>([\d\.]+%)\<close> and \<open>([\d,]+)\<close>.\<close>

definition percent_group :: "item list" where
  "percent_group = [(digit_point, Plus), (lit 37, One)]"

definition amount_group :: "item list" where
  "amount_group = [(digit_comma, Plus)]"

definition PATTERNS :: "(string \<times> pattern) list" where
  "PATTERNS =
     [(''Achievement Rate'',
         Pattern (word ''Achievement'' @ [(py_isspace, Star)] @ word ''Rate''
                    @ [(colon_space, Star)])
                 percent_group []),
      (''Revenue Target'',
         Pattern (word ''Revenue'' @ [(py_isspace, Star)] @ word ''Target''
                    @ [(colon_space, Star), (currency_mark, Star)])
                 amount_group []),
      (''Achieved'',
         Pattern (word ''Achieved'' @ [(colon_space, Star), (currency_mark, Star)])
                 amount_group []),
      (''Revenue Reached'',
         Pattern (word ''revenue'' @ [(py_isspace, Star)] @ word ''reached''
                    @ [(py_isspace, Star), (currency_mark, Star)])
                 amount_group []),
      (''Target Of'',
         Pattern (word ''against'' @ [(py_isspace, Star)] @ word ''a'' @ [(py_isspace, Star)]
                    @ word ''target'' @ [(py_isspace, Star)] @ word ''of''
                    @ [(py_isspace, Star), (currency_mark, Star)])
                 amount_group []),
      (''Revenue %'',
         Pattern (word ''against'' @ [(py_isspace, Star)] @ word ''a'' @ [(py_isspace, Star)]
                    @ word ''target'' @ [(py_isspace, Star)] @ word ''of''
                    @ [(py_isspace, Star), (currency_mark, Star), (not_paren, Plus),
                       (lit 40, One)])
                 percent_group [(lit 41, One)]),
      (''Quality Score'',
         Pattern (word ''Quality'' @ [(py_isspace, Star)] @ word ''score''
                    @ [(py_isspace, Star)] @ word ''was'' @ [(py_isspace, Star)])
                 percent_group []),
      (''Quality Score (alt)'',
         Pattern (word ''Quality'' @ [(py_isspace, Star)] @ word ''Score''
                    @ [(colon_space, Star)])
                 percent_group [])]"

text \<open>The loop over \<open>PATTERNS.items()\<close>, filling the dictionary \<open>data\<close>.\<close>

fun patterns_loop ::
  "(string \<times> pattern) list \<Rightarrow> pystr \<Rightarrow> (string \<rightharpoonup> pystr) \<Rightarrow> (string \<rightharpoonup> pystr)" where
  "patterns_loop [] full_text data = data"
| "patterns_loop ((key, pat) # rest) full_text data =
     patterns_loop rest full_text
       (case search pat full_text of None \<Rightarrow> data | Some g \<Rightarrow> data(key \<mapsto> g))"

definition extract_kpis_from_text :: "pystr \<Rightarrow> (string \<rightharpoonup> pystr)" where
  "extract_kpis_from_text full_text =
     (let data = patterns_loop PATTERNS full_text Map.empty;
          data = (if data ''Quality Score'' = None \<and> data ''Quality Score (alt)'' \<noteq> None
                  then data(''Quality Score'' := data ''Quality Score (alt)'')
                  else data)
      in data(''Quality Score (alt)'' := None))"

text \<open>The pattern stored under a key of \<open>PATTERNS\<close>.\<close>

definition pattern_of :: "string \<Rightarrow> pattern" where
  "pattern_of key = the (map_of PATTERNS key)"

lemmas regex_eval = pattern_of_def PATTERNS_def match_at_def word_def lit_def casefold_def
  py_isspace_def colon_space_def currency_mark_def digit_comma_def digit_point_def
  not_paren_def percent_group_def amount_group_def is_decimal_def digit_value_def
  unicode_zeros_def

lemma patterns_loop_apply:
  "distinct (map fst ps) \<Longrightarrow>
   patterns_loop ps t d k =
     (case map_of ps k of
        None \<Rightarrow> d k
      | Some p \<Rightarrow> (case search p t of None \<Rightarrow> d k | Some g \<Rightarrow> Some g))"
proof (induction ps arbitrary: d)
  case Nil
  then show ?case by simp
next
  case (Cons a ps)
  obtain key pat where a: "a = (key, pat)" by (cases a)
  from Cons.prems a have d: "distinct (map fst ps)" and nk: "map_of ps key = None"
    by (simp_all add: map_of_eq_None_iff)
  show ?case
    unfolding a using nk
    by (simp add: Cons.IH [OF d] split: option.splits)
qed

lemma PATTERNS_distinct: "distinct (map fst PATTERNS)"
  by (simp add: PATTERNS_def)

lemma patterns_loop_PATTERNS:
  "patterns_loop PATTERNS t Map.empty k =
     (case map_of PATTERNS k of None \<Rightarrow> None | Some p \<Rightarrow> search p t)"
  by (simp add: patterns_loop_apply [OF PATTERNS_distinct] split: option.splits)

lemma map_of_PATTERNS_quality:
  "map_of PATTERNS ''Quality Score'' = Some (pattern_of ''Quality Score'')"
  "map_of PATTERNS ''Quality Score (alt)'' = Some (pattern_of ''Quality Score (alt)'')"
  by (simp_all add: pattern_of_def PATTERNS_def)

text \<open>The value the matcher returns under a key other than the two of the quality score.\<close>

lemma extract_kpis_other_key:
  assumes "k \<noteq> ''Quality Score''" "k \<noteq> ''Quality Score (alt)''"
  shows "extract_kpis_from_text t k =
           (case map_of PATTERNS k of None \<Rightarrow> None | Some p \<Rightarrow> search p t)"
  using assms by (simp add: extract_kpis_from_text_def Let_def patterns_loop_PATTERNS)

lemma extract_kpis_quality:
  "extract_kpis_from_text t ''Quality Score'' =
     (case search (pattern_of ''Quality Score'') t of
        Some g \<Rightarrow> Some g
      | None \<Rightarrow> search (pattern_of ''Quality Score (alt)'') t)"
  by (simp add: extract_kpis_from_text_def Let_def patterns_loop_PATTERNS
      map_of_PATTERNS_quality split: option.splits)

lemma extract_kpis_no_alt: "extract_kpis_from_text t ''Quality Score (alt)'' = None"
  by (simp add: extract_kpis_from_text_def Let_def)

text \<open>
  C6. For every full text the map of the matcher has no entry under
  \<open>Quality Score (alt)\<close>; under \<open>Quality Score\<close> it has what the primary pattern
  captured when that matched, and otherwise what the fallback pattern captured, if
  anything. The text \<open>Quality Score: 92.5%\<close> gives \<open>92.5%\<close> there, and
  \<open>parse_percent\<close> makes 92.5 of it.
\<close>

theorem quality_score_fallback:
  "''Quality Score (alt)'' \<notin> dom (extract_kpis_from_text t)
   \<and> extract_kpis_from_text t ''Quality Score'' =
       (case search (pattern_of ''Quality Score'') t of
          Some g \<Rightarrow> Some g
        | None \<Rightarrow> search (pattern_of ''Quality Score (alt)'') t)
   \<and> search (pattern_of ''Quality Score'') (ascii ''Quality Score: 92.5%'') = None
   \<and> extract_kpis_from_text (ascii ''Quality Score: 92.5%'') ''Quality Score''
       = Some (ascii ''92.5%'')
   \<and> parse_percent (extract_kpis_from_text (ascii ''Quality Score: 92.5%'') ''Quality Score'')
       = Inr (Some (Fin (185 / 2)))"
proof -
  have a: "''Quality Score (alt)'' \<notin> dom (extract_kpis_from_text t)"
    by (simp add: domIff extract_kpis_no_alt)
  have p: "search (pattern_of ''Quality Score'') (ascii ''Quality Score: 92.5%'') = None"
    by (simp add: ascii_def regex_eval)
  have f: "search (pattern_of ''Quality Score (alt)'') (ascii ''Quality Score: 92.5%'')
             = Some (ascii ''92.5%'')"
    by (simp add: ascii_def regex_eval)
  have e: "extract_kpis_from_text (ascii ''Quality Score: 92.5%'') ''Quality Score''
             = Some (ascii ''92.5%'')"
    by (simp add: extract_kpis_quality p f)
  have v: "parse_percent (Some (ascii ''92.5%'')) = Inr (Some (Fin (185 / 2)))"
    by (simp add: parse_percent_def float_eval)
  from a extract_kpis_quality [of t] p e v show ?thesis by simp
qed

section \<open>Rows\<close>

text \<open>
  A numeric cell is a float or \<open>None\<close>. A document is parsed by python-pptx, which is
  not part of the program: \<open>Presentation\<close> is a parameter, a function from the bytes
  to the slides or to the exception it raises. A slide is read for its shapes only.
\<close>

type_synonym cell = "pyfloat option"

type_synonym bytes = "nat list"

datatype slide = Slide (shapes: "shape list")

type_synonym deck = "slide list"

record kpi_row =
  ppt_file :: pystr
  achievement_rate :: cell
  revenue_target :: cell
  achieved :: cell
  revenue_reached :: cell
  target_of :: cell
  revenue_pct :: cell
  quality_score :: cell

text \<open>Sequencing of two steps of which the first may raise.\<close>

definition and_then :: "exn + 'a \<Rightarrow> ('a \<Rightarrow> exn + 'b) \<Rightarrow> exn + 'b" where
  "and_then r f = (case r of Inl e \<Rightarrow> Inl e | Inr x \<Rightarrow> f x)"

fun shapes_loop :: "shape list \<Rightarrow> pystr list \<Rightarrow> pystr list" where
  "shapes_loop [] texts = texts"
| "shapes_loop (sh # shs) texts =
     (let txt = extract_runs_text sh
      in shapes_loop shs (if txt \<noteq> [] then texts @ [txt] else texts))"

fun slides_loop :: "slide list \<Rightarrow> pystr list \<Rightarrow> pystr list" where
  "slides_loop [] texts = texts"
| "slides_loop (sl # sls) texts = slides_loop sls (shapes_loop (shapes sl) texts)"

text \<open>The text of a whole deck, on which the patterns are searched.\<close>

definition deck_text :: "deck \<Rightarrow> pystr" where
  "deck_text prs = join (ascii '' '') (slides_loop prs [])"

definition row_of_text :: "pystr \<Rightarrow> pystr \<Rightarrow> exn + kpi_row" where
  "row_of_text full_text filename =
     (let kpis = extract_kpis_from_text full_text
      in and_then (parse_percent (kpis ''Achievement Rate'')) (\<lambda>ar.
         and_then (parse_currency (kpis ''Revenue Target'')) (\<lambda>rt.
         and_then (parse_currency (kpis ''Achieved'')) (\<lambda>ac.
         and_then (parse_currency (kpis ''Revenue Reached'')) (\<lambda>rr.
         and_then (parse_currency (kpis ''Target Of'')) (\<lambda>tg.
         and_then (parse_percent (kpis ''Revenue %'')) (\<lambda>rp.
         and_then (parse_percent (kpis ''Quality Score'')) (\<lambda>qs.
           Inr \<lparr>ppt_file = filename, achievement_rate = ar, revenue_target = rt,
                achieved = ac, revenue_reached = rr, target_of = tg, revenue_pct = rp,
                quality_score = qs\<rparr>))))))))"

definition process_pptx_bytes ::
  "(bytes \<Rightarrow> exn + deck) \<Rightarrow> bytes \<Rightarrow> pystr \<Rightarrow> exn + kpi_row" where
  "process_pptx_bytes Presentation ppt_bytes filename =
     and_then (Presentation ppt_bytes) (\<lambda>prs. row_of_text (deck_text prs) filename)"

section \<open>The batch\<close>

text \<open>
  An uploaded file has a name and its bytes. An opened archive gives the list of its
  entry names and reads an entry by name, which may raise; opening it may raise too, so
  \<open>ZipFile\<close> is a parameter like \<open>Presentation\<close>. The messages shown to the user are
  kept in the order in which they are issued.
\<close>

record upload =
  name :: pystr
  content :: bytes

record archive =
  namelist :: "pystr list"
  read_entry :: "pystr \<Rightarrow> exn + bytes"

datatype message =
    FailedToProcess pystr exn
  | FailedToProcessFromZip pystr exn
  | CouldNotReadZip exn
  | NoValidFiles

record batch =
  rows :: "kpi_row list"
  seen :: "pystr set"
  messages :: "message list"

fun uploads_loop :: "(bytes \<Rightarrow> exn + deck) \<Rightarrow> upload list \<Rightarrow> batch \<Rightarrow> batch" where
  "uploads_loop P [] st = st"
| "uploads_loop P (f # fs) st =
     uploads_loop P fs
       (case process_pptx_bytes P (content f) (name f) of
          Inr row \<Rightarrow> st\<lparr>rows := rows st @ [row], seen := insert (name f) (seen st)\<rparr>
        | Inl e \<Rightarrow> st\<lparr>messages := messages st @ [FailedToProcess (name f) e]\<rparr>)"

text \<open>
  \<open>name.lower().endswith(".pptx")\<close>. Lowering is modelled on the ASCII letters; no other
  character is lowered to one of \<open>.pptx\<close>, so the test is the same.
\<close>

definition endswith :: "pystr \<Rightarrow> pystr \<Rightarrow> bool" where
  "endswith s suf \<longleftrightarrow> length suf \<le> length s \<and> drop (length s - length suf) s = suf"

definition is_pptx :: "pystr \<Rightarrow> bool" where
  "is_pptx n \<longleftrightarrow> endswith (map ascii_lower n) (ascii ''.pptx'')"

fun zip_loop ::
  "(bytes \<Rightarrow> exn + deck) \<Rightarrow> archive \<Rightarrow> pystr list \<Rightarrow> batch \<Rightarrow> batch" where
  "zip_loop P zf [] st = st"
| "zip_loop P zf (n # ns) st =
     zip_loop P zf ns
       (if is_pptx n \<and> n \<notin> seen st then
          (case and_then (read_entry zf n) (\<lambda>b. process_pptx_bytes P b n) of
             Inr row \<Rightarrow> st\<lparr>rows := rows st @ [row], seen := insert n (seen st)\<rparr>
           | Inl e \<Rightarrow> st\<lparr>messages := messages st @ [FailedToProcessFromZip n e]\<rparr>)
        else st)"

text \<open>
  The two loops of the button handler: the uploaded decks, then the entries of the
  uploaded archive.
\<close>

definition collect_rows ::
  "(bytes \<Rightarrow> exn + deck) \<Rightarrow> (bytes \<Rightarrow> exn + archive) \<Rightarrow> upload list \<Rightarrow> bytes option \<Rightarrow> batch"
  where
  "collect_rows P Z uploaded_ppts uploaded_zip =
     (let st = uploads_loop P uploaded_ppts \<lparr>rows = [], seen = {}, messages = []\<rparr>
      in case uploaded_zip of
           None \<Rightarrow> st
         | Some z \<Rightarrow>
             (case Z z of
                Inl e \<Rightarrow> st\<lparr>messages := messages st @ [CouldNotReadZip e]\<rparr>
              | Inr zf \<Rightarrow> zip_loop P zf (namelist zf) st))"

section \<open>Reconciliation\<close>

text \<open>
  The rows become a pandas data frame, in which a missing number is \<open>None\<close> or
  not-a-number; \<open>pd.notnull\<close> is false for both. \<open>cell_val\<close> is the float a cell
  holds.
\<close>

definition notnull :: "cell \<Rightarrow> bool" where
  "notnull c \<longleftrightarrow> c \<noteq> None \<and> c \<noteq> Some NaN"

definition cell_val :: "cell \<Rightarrow> pyfloat" where
  "cell_val c = (case c of None \<Rightarrow> NaN | Some x \<Rightarrow> x)"

record row_a = kpi_row +
  best_achieved :: cell

record row_ab = row_a +
  best_target :: cell

text \<open>The first derived column: \<open>Achieved\<close> when it is there, else \<open>Revenue Reached\<close>.\<close>

definition add_best_achieved :: "'a kpi_row_scheme \<Rightarrow> row_a" where
  "add_best_achieved r =
     \<lparr>ppt_file = ppt_file r, achievement_rate = achievement_rate r,
      revenue_target = revenue_target r, achieved = achieved r,
      revenue_reached = revenue_reached r, target_of = target_of r,
      revenue_pct = revenue_pct r, quality_score = quality_score r,
      best_achieved = (if notnull (achieved r) then achieved r else revenue_reached r)\<rparr>"

text \<open>The second: \<open>Revenue Target\<close> when it is there, else \<open>Target Of\<close>.\<close>

definition add_best_target :: "'a row_a_scheme \<Rightarrow> row_ab" where
  "add_best_target r =
     \<lparr>ppt_file = ppt_file r, achievement_rate = achievement_rate r,
      revenue_target = revenue_target r, achieved = achieved r,
      revenue_reached = revenue_reached r, target_of = target_of r,
      revenue_pct = revenue_pct r, quality_score = quality_score r,
      best_achieved = best_achieved r,
      best_target = (if notnull (revenue_target r) then revenue_target r else target_of r)\<rparr>"

definition infer_rate :: "row_ab \<Rightarrow> exn + cell" where
  "infer_rate row =
     (if notnull (achievement_rate row) then Inr (achievement_rate row)
      else if notnull (best_achieved row) \<and> notnull (best_target row)
              \<and> cell_val (best_target row) \<noteq> Fin 0
      then and_then (fdiv (cell_val (best_achieved row)) (cell_val (best_target row)))
             (\<lambda>q. Inr (Some (py_round2 (fmul q (Fin 100)))))
      else if notnull (revenue_pct row) then Inr (revenue_pct row)
      else Inr None)"

text \<open>\<open>df.apply(infer_rate, axis=1)\<close>: row after row; an exception in one ends the pass.\<close>

fun apply_infer_rate :: "row_ab list \<Rightarrow> exn + row_ab list" where
  "apply_infer_rate [] = Inr []"
| "apply_infer_rate (r # rs) =
     and_then (infer_rate r) (\<lambda>rate.
     and_then (apply_infer_rate rs) (\<lambda>rs'. Inr (r\<lparr>achievement_rate := rate\<rparr> # rs')))"

text \<open>
  The three column assignments of the handler. Assigning a column that is there already
  replaces it, so the pass applies to a frame that has the derived columns as well.
\<close>

definition reconcile :: "'a kpi_row_scheme list \<Rightarrow> exn + row_ab list" where
  "reconcile df = apply_infer_rate (map add_best_target (map add_best_achieved df))"

text \<open>
  The handler of the button: what is shown, an information when there is no row, else the
  reconciled table, and the messages.
\<close>

record outcome =
  table :: "row_ab list"
  shown :: "message list"

definition process_files ::
  "(bytes \<Rightarrow> exn + deck) \<Rightarrow> (bytes \<Rightarrow> exn + archive) \<Rightarrow> upload list \<Rightarrow> bytes option
     \<Rightarrow> exn + outcome" where
  "process_files P Z uploaded_ppts uploaded_zip =
     (let st = collect_rows P Z uploaded_ppts uploaded_zip
      in if rows st = [] then Inr \<lparr>table = [], shown = messages st @ [NoValidFiles]\<rparr>
         else and_then (reconcile (rows st)) (\<lambda>df. Inr \<lparr>table = df, shown = messages st\<rparr>))"

section \<open>Properties of the reconciliation\<close>

text \<open>
  The row the specification describes for a row \<open>r\<close> of the frame: the best achieved
  amount, the best target, and the achievement rate, the quotient being taken and rounded
  before the multiplication by 100, as the program does.
\<close>

definition reconciled :: "'a kpi_row_scheme \<Rightarrow> row_ab" where
  "reconciled r =
     (let ba = (if notnull (achieved r) then achieved r else revenue_reached r);
          bt = (if notnull (revenue_target r) then revenue_target r else target_of r);
          rate =
            (if notnull (achievement_rate r) then achievement_rate r
             else if notnull ba \<and> notnull bt \<and> cell_val bt \<noteq> Fin 0
             then Some (py_round2 (fmul (quotient (cell_val ba) (cell_val bt)) (Fin 100)))
             else if notnull (revenue_pct r) then revenue_pct r
             else None)
      in \<lparr>ppt_file = ppt_file r, achievement_rate = rate,
          revenue_target = revenue_target r, achieved = achieved r,
          revenue_reached = revenue_reached r, target_of = target_of r,
          revenue_pct = revenue_pct r, quality_score = quality_score r,
          best_achieved = ba, best_target = bt\<rparr>)"

text \<open>The guard on the divisor keeps the division from raising.\<close>

lemma infer_rate_returns:
  "\<exists>rate. infer_rate row = Inr rate"
  by (simp add: infer_rate_def and_then_def fdiv_def)

lemma rate_choice:
  "(if A then Inr x
    else if B \<and> C \<and> d \<noteq> Fin 0
    then and_then (fdiv n d) (\<lambda>q. Inr (Some (py_round2 (fmul q (Fin 100)))))
    else if E then Inr y else Inr None)
   = Inr (if A then x
          else if B \<and> C \<and> d \<noteq> Fin 0
          then Some (py_round2 (fmul (quotient n d) (Fin 100)))
          else if E then y else None)"
  by (simp add: and_then_def fdiv_def)

lemma infer_rate_reconciled:
  "infer_rate (add_best_target (add_best_achieved r)) = Inr (achievement_rate (reconciled r))"
proof -
  let ?row = "add_best_target (add_best_achieved r)"
  let ?ba = "if notnull (achieved r) then achieved r else revenue_reached r"
  let ?bt = "if notnull (revenue_target r) then revenue_target r else target_of r"
  have f: "achievement_rate ?row = achievement_rate r" "best_achieved ?row = ?ba"
    "best_target ?row = ?bt" "revenue_pct ?row = revenue_pct r"
    by (simp_all add: add_best_target_def add_best_achieved_def)
  have g: "achievement_rate (reconciled r) =
      (if notnull (achievement_rate r) then achievement_rate r
       else if notnull ?ba \<and> notnull ?bt \<and> cell_val ?bt \<noteq> Fin 0
       then Some (py_round2 (fmul (quotient (cell_val ?ba) (cell_val ?bt)) (Fin 100)))
       else if notnull (revenue_pct r) then revenue_pct r
       else None)"
    unfolding reconciled_def Let_def by (simp only: kpi_row.simps)
  show ?thesis
    unfolding infer_rate_def f g by (rule rate_choice)
qed

lemma set_rate_reconciled:
  "(add_best_target (add_best_achieved r))\<lparr>achievement_rate := achievement_rate (reconciled r)\<rparr>
     = reconciled r"
  by (simp add: reconciled_def Let_def add_best_target_def add_best_achieved_def)

lemma apply_infer_rate_reconciled:
  "apply_infer_rate (map (\<lambda>r. add_best_target (add_best_achieved r)) df)
     = Inr (map reconciled df)"
proof (induction df)
  case Nil
  then show ?case by simp
next
  case (Cons r df)
  then show ?case
    by (simp add: and_then_def infer_rate_reconciled set_rate_reconciled)
qed

lemma reconcile_reconciled: "reconcile df = Inr (map reconciled df)"
  using apply_infer_rate_reconciled [of df] by (simp add: reconcile_def comp_def)

lemma reconciled_idem: "reconciled (reconciled r) = reconciled r"
  by (simp add: reconciled_def Let_def)

lemmas reconcile_eval = reconcile_reconciled reconciled_def notnull_def cell_val_def
  double_eval

text \<open>
  C4, the claim as stated fails on the formula of the rate. For a row with Achieved 23 and
  Revenue Target 160 and no stated rate the program computes 23 / 160 first, which is
  rounded to a double, and then multiplies by 100: the result 14.374999999999998 is
  rounded to 14.37. The claim's \<open>round(100 * 23 / 160, 2)\<close> is the rounding of 14.375
  exactly, which is 14.38.
\<close>

theorem rate_divides_before_multiplying:
  "and_then
     (reconcile [\<lparr>ppt_file = ascii ''a.pptx'', achievement_rate = None,
                   revenue_target = Some (Fin 160), achieved = Some (Fin 23),
                   revenue_reached = None, target_of = None, revenue_pct = None,
                   quality_score = None\<rparr>])
     (\<lambda>df. Inr (map achievement_rate df))
     = Inr [Some (Fin (8089590830664253 / 562949953421312))]
   \<and> py_round2 (quotient (fmul (Fin 100) (Fin 23)) (Fin 160))
     = Fin (8095220330198467 / 562949953421312)"
  by (simp add: and_then_def reconcile_eval)

text \<open>
  C4, amended. The pass never raises and treats every row on its own: each row becomes
  \<open>reconciled\<close> of it. There the best achieved amount is Achieved if present, else
  Revenue Reached; the best target is Revenue Target if present, else Target Of; the rate
  is the row's stated rate if present, else \<open>round((best achieved / best target) * 100, 2)\<close>
  in double arithmetic when both are present and the target is not zero, else Revenue %
  if present, else absent. Achieved 8000 with target 10000 gives 80.0. With a target of
  zero no rate is computed: the rate is Revenue % if that is present (12.5 below) and
  absent otherwise.
\<close>

theorem reconcile_rows:
  "reconcile df = Inr (map reconciled df)
   \<and> achievement_rate (reconciled
        \<lparr>ppt_file = n, achievement_rate = None, revenue_target = Some (Fin 10000),
         achieved = Some (Fin 8000), revenue_reached = None, target_of = None,
         revenue_pct = None, quality_score = None\<rparr>) = Some (Fin 80)
   \<and> achievement_rate (reconciled
        \<lparr>ppt_file = n, achievement_rate = None, revenue_target = Some (Fin 0),
         achieved = Some (Fin 500), revenue_reached = None, target_of = None,
         revenue_pct = None, quality_score = None\<rparr>) = None
   \<and> achievement_rate (reconciled
        \<lparr>ppt_file = n, achievement_rate = None, revenue_target = Some (Fin 0),
         achieved = Some (Fin 500), revenue_reached = None, target_of = None,
         revenue_pct = Some (Fin (25 / 2)), quality_score = None\<rparr>) = Some (Fin (25 / 2))"
proof -
  have a: "achievement_rate (reconciled
        \<lparr>ppt_file = n, achievement_rate = None, revenue_target = Some (Fin 10000),
         achieved = Some (Fin 8000), revenue_reached = None, target_of = None,
         revenue_pct = None, quality_score = None\<rparr>) = Some (Fin 80)"
    by (simp add: reconciled_def notnull_def cell_val_def double_eval)
  have b: "achievement_rate (reconciled
        \<lparr>ppt_file = n, achievement_rate = None, revenue_target = Some (Fin 0),
         achieved = Some (Fin 500), revenue_reached = None, target_of = None,
         revenue_pct = None, quality_score = None\<rparr>) = None"
    by (simp add: reconciled_def Let_def notnull_def cell_val_def)
  have c: "achievement_rate (reconciled
        \<lparr>ppt_file = n, achievement_rate = None, revenue_target = Some (Fin 0),
         achieved = Some (Fin 500), revenue_reached = None, target_of = None,
         revenue_pct = Some (Fin (25 / 2)), quality_score = None\<rparr>) = Some (Fin (25 / 2))"
    by (simp add: reconciled_def Let_def notnull_def cell_val_def)
  from reconcile_reconciled [of df] a b c show ?thesis by blast
qed

text \<open>
  C8. The pass returns a table for every frame, and run again on that table it returns
  the same table: no value of any row changes.
\<close>

theorem reconcile_idempotent:
  "\<exists>df'. reconcile df = Inr df' \<and> reconcile df' = Inr df'"
proof -
  have "reconcile (map reconciled df) = Inr (map reconciled (map reconciled df))"
    by (rule reconcile_reconciled)
  also have "map reconciled (map reconciled df) = map reconciled df"
    by (simp add: reconciled_idem)
  finally show ?thesis
    using reconcile_reconciled [of df] by blast
qed

section \<open>Properties of the batch\<close>

text \<open>
  What processing one upload, and one archive entry, returns; the results of the
  successful ones and the failures of a list of inputs, in the order of the inputs; the
  first occurrences of the elements of a list.
\<close>

definition upload_result :: "(bytes \<Rightarrow> exn + deck) \<Rightarrow> upload \<Rightarrow> exn + kpi_row" where
  "upload_result P f = process_pptx_bytes P (content f) (name f)"

definition entry_result ::
  "(bytes \<Rightarrow> exn + deck) \<Rightarrow> archive \<Rightarrow> pystr \<Rightarrow> exn + kpi_row" where
  "entry_result P zf n = and_then (read_entry zf n) (\<lambda>b. process_pptx_bytes P b n)"

fun successes :: "('a \<Rightarrow> exn + 'b) \<Rightarrow> 'a list \<Rightarrow> 'b list" where
  "successes f [] = []"
| "successes f (x # xs) =
     (case f x of Inr r \<Rightarrow> r # successes f xs | Inl e \<Rightarrow> successes f xs)"

fun failures :: "('a \<Rightarrow> exn + 'b) \<Rightarrow> 'a list \<Rightarrow> ('a \<times> exn) list" where
  "failures f [] = []"
| "failures f (x # xs) =
     (case f x of Inr r \<Rightarrow> failures f xs | Inl e \<Rightarrow> (x, e) # failures f xs)"

fun first_occurrences :: "'a list \<Rightarrow> 'a list" where
  "first_occurrences [] = []"
| "first_occurrences (x # xs) = x # removeAll x (first_occurrences xs)"

text \<open>The names of the uploads that were processed without an exception.\<close>

definition uploaded_names :: "(bytes \<Rightarrow> exn + deck) \<Rightarrow> upload list \<Rightarrow> pystr set" where
  "uploaded_names P fs = name ` {f \<in> set fs. \<not> isl (upload_result P f)}"

text \<open>
  A stand-in for python-pptx in the examples: no bytes at all cannot be read, any other
  bytes are a deck of one slide with one shape, whose only run has those bytes as text.
\<close>

definition demo_presentation :: "bytes \<Rightarrow> exn + deck" where
  "demo_presentation b =
     (if b = [] then Inl (LibraryError 0)
      else Inr [Slide [Shape (Some [Para [Run (Some b)]])]])"

lemma successes_append: "successes f (xs @ ys) = successes f xs @ successes f ys"
  by (induction xs) (simp_all split: sum.splits)

lemma failures_append: "failures f (xs @ ys) = failures f xs @ failures f ys"
  by (induction xs) (simp_all split: sum.splits)

lemma successes_filter:
  "(\<And>x. x \<in> set xs \<Longrightarrow> \<not> Q x \<Longrightarrow> isl (f x)) \<Longrightarrow> successes f (filter Q xs) = successes f xs"
proof (induction xs)
  case Nil
  then show ?case by simp
next
  case (Cons a xs)
  from Cons.prems have ih: "successes f (filter Q xs) = successes f xs"
    by (intro Cons.IH) simp_all
  show ?case
  proof (cases "Q a")
    case True
    with ih show ?thesis by (simp split: sum.splits)
  next
    case False
    with Cons.prems [of a] have "isl (f a)" by simp
    then obtain e where "f a = Inl e" by (cases "f a") simp_all
    with False ih show ?thesis by simp
  qed
qed

lemma in_successes: "x \<in> set xs \<Longrightarrow> f x = Inr r \<Longrightarrow> r \<in> set (successes f xs)"
  by (induction xs) (auto split: sum.splits)

lemma successes_sound: "r \<in> set (successes f xs) \<Longrightarrow> \<exists>x\<in>set xs. f x = Inr r"
  by (induction xs) (auto split: sum.splits)

lemma first_occurrences_filter:
  "first_occurrences (filter Q xs) = filter Q (first_occurrences xs)"
proof (induction xs)
  case Nil
  then show ?case by simp
next
  case (Cons x xs)
  show ?case
  proof (cases "Q x")
    case True
    with Cons show ?thesis
      by (simp add: removeAll_filter_not_eq) (metis (mono_tags, lifting) filter_cong)
  next
    case False
    then have "filter Q (removeAll x (first_occurrences xs)) = filter Q (first_occurrences xs)"
      by (auto simp: removeAll_filter_not_eq intro: filter_cong)
    with False Cons show ?thesis by simp
  qed
qed

lemma set_first_occurrences: "set (first_occurrences xs) = set xs"
  by (induction xs) auto

lemma distinct_first_occurrences: "distinct (first_occurrences xs)"
  by (induction xs) (simp_all add: distinct_removeAll)

text \<open>The loop over the uploads: its rows, its messages and its set of seen names.\<close>

lemma uploads_loop_rows:
  "rows (uploads_loop P fs st) = rows st @ successes (upload_result P) fs"
  by (induction fs arbitrary: st) (simp_all add: upload_result_def split: sum.splits)

lemma uploads_loop_messages:
  "messages (uploads_loop P fs st)
     = messages st @ map (\<lambda>(f, e). FailedToProcess (name f) e) (failures (upload_result P) fs)"
  by (induction fs arbitrary: st) (simp_all add: upload_result_def split: sum.splits)

lemma uploads_loop_seen:
  "seen (uploads_loop P fs st) = seen st \<union> uploaded_names P fs"
proof (induction fs arbitrary: st)
  case Nil
  then show ?case by (simp add: uploaded_names_def)
next
  case (Cons f fs)
  have u: "uploaded_names P (f # fs)
      = (if isl (upload_result P f) then {} else {name f}) \<union> uploaded_names P fs"
    by (auto simp: uploaded_names_def)
  show ?case
    by (cases "process_pptx_bytes P (content f) (name f)")
      (simp_all add: Cons.IH u upload_result_def)
qed

lemma failures_filter:
  "(\<And>x. x \<in> set xs \<Longrightarrow> \<not> Q x \<Longrightarrow> \<not> isl (f x)) \<Longrightarrow> failures f (filter Q xs) = failures f xs"
proof (induction xs)
  case Nil
  then show ?case by simp
next
  case (Cons a xs)
  from Cons.prems have ih: "failures f (filter Q xs) = failures f xs"
    by (intro Cons.IH) simp_all
  show ?case
  proof (cases "Q a")
    case True
    with ih show ?thesis by (simp split: sum.splits)
  next
    case False
    with Cons.prems [of a] have "\<not> isl (f a)" by simp
    then obtain r where "f a = Inr r" by (cases "f a") simp_all
    with False ih show ?thesis by simp
  qed
qed

text \<open>The loop over the entries of the archive.\<close>

lemma zip_loop_rows:
  "rows (zip_loop P zf ns st)
     = rows st @ successes (entry_result P zf)
                   (first_occurrences (filter (\<lambda>n. is_pptx n \<and> n \<notin> seen st) ns))"
proof (induction ns arbitrary: st)
  case Nil
  then show ?case by simp
next
  case (Cons n ns)
  let ?e = "entry_result P zf"
  let ?c = "\<lambda>m. is_pptx m \<and> m \<notin> seen st"
  show ?case
  proof (cases "?c n")
    case False
    then have step: "zip_loop P zf (n # ns) st = zip_loop P zf ns st" by auto
    from False have "filter ?c (n # ns) = filter ?c ns" by auto
    then show ?thesis unfolding step Cons.IH by simp
  next
    case True
    show ?thesis
    proof (cases "?e n")
      case (Inr row)
      let ?st = "st\<lparr>rows := rows st @ [row], seen := insert n (seen st)\<rparr>"
      have step: "zip_loop P zf (n # ns) st = zip_loop P zf ns ?st"
        using True Inr by (simp add: entry_result_def)
      have "first_occurrences (filter (\<lambda>m. is_pptx m \<and> m \<notin> seen ?st) ns)
              = filter (\<lambda>m. ?c m \<and> m \<noteq> n) (first_occurrences ns)"
        by (simp add: first_occurrences_filter) (metis (mono_tags, lifting) filter_cong)
      also have "\<dots> = removeAll n (first_occurrences (filter ?c ns))"
        by (simp add: first_occurrences_filter removeAll_filter_not_eq)
          (metis (mono_tags, lifting) filter_cong)
      finally have fo: "first_occurrences (filter (\<lambda>m. is_pptx m \<and> m \<notin> seen ?st) ns)
              = removeAll n (first_occurrences (filter ?c ns))" .
      show ?thesis
        unfolding step Cons.IH fo using True Inr by simp
    next
      case (Inl err)
      let ?st = "st\<lparr>messages := messages st @ [FailedToProcessFromZip n err]\<rparr>"
      have step: "zip_loop P zf (n # ns) st = zip_loop P zf ns ?st"
        using True Inl by (simp add: entry_result_def)
      have "successes ?e (removeAll n (first_occurrences (filter ?c ns)))
              = successes ?e (first_occurrences (filter ?c ns))"
        unfolding removeAll_filter_not_eq using Inl by (intro successes_filter) auto
      then show ?thesis
        unfolding step Cons.IH using True Inl by simp
    qed
  qed
qed

lemma zip_loop_messages:
  "messages (zip_loop P zf ns st)
     = messages st @ map (\<lambda>(n, e). FailedToProcessFromZip n e)
                       (failures (entry_result P zf)
                          (filter (\<lambda>n. is_pptx n \<and> n \<notin> seen st) ns))"
proof (induction ns arbitrary: st)
  case Nil
  then show ?case by simp
next
  case (Cons n ns)
  let ?e = "entry_result P zf"
  let ?c = "\<lambda>m. is_pptx m \<and> m \<notin> seen st"
  show ?case
  proof (cases "?c n")
    case False
    then have step: "zip_loop P zf (n # ns) st = zip_loop P zf ns st" by auto
    from False have "filter ?c (n # ns) = filter ?c ns" by auto
    then show ?thesis unfolding step Cons.IH by simp
  next
    case True
    show ?thesis
    proof (cases "?e n")
      case (Inr row)
      let ?st = "st\<lparr>rows := rows st @ [row], seen := insert n (seen st)\<rparr>"
      have step: "zip_loop P zf (n # ns) st = zip_loop P zf ns ?st"
        using True Inr by (simp add: entry_result_def)
      have "filter (\<lambda>m. is_pptx m \<and> m \<notin> seen ?st) ns = filter (\<lambda>m. m \<noteq> n) (filter ?c ns)"
        by (simp add: conj_commute) (metis (mono_tags, lifting) filter_cong)
      moreover have "failures ?e (filter (\<lambda>m. m \<noteq> n) (filter ?c ns)) = failures ?e (filter ?c ns)"
        using Inr by (intro failures_filter) auto
      ultimately show ?thesis
        unfolding step Cons.IH using True Inr by simp
    next
      case (Inl err)
      let ?st = "st\<lparr>messages := messages st @ [FailedToProcessFromZip n err]\<rparr>"
      have step: "zip_loop P zf (n # ns) st = zip_loop P zf ns ?st"
        using True Inl by (simp add: entry_result_def)
      show ?thesis
        unfolding step Cons.IH using True Inl by simp
    qed
  qed
qed

lemma zip_loop_seen:
  "seen (zip_loop P zf ns st)
     = seen st \<union> {n \<in> set ns. is_pptx n \<and> \<not> isl (entry_result P zf n)}"
proof (induction ns arbitrary: st)
  case Nil
  then show ?case by simp
next
  case (Cons n ns)
  show ?case
  proof (cases "entry_result P zf n")
    case (Inr row)
    then show ?thesis
      by (auto simp: Cons.IH entry_result_def)
  next
    case (Inl err)
    then show ?thesis
      by (auto simp: Cons.IH entry_result_def)
  qed
qed

text \<open>A document is processed without an exception exactly when python-pptx reads it.\<close>

lemma row_of_text_returns:
  "\<exists>row. row_of_text t n = Inr row \<and> ppt_file row = n"
proof -
  let ?k = "extract_kpis_from_text t"
  obtain ar where ar: "parse_percent (?k ''Achievement Rate'') = Inr ar"
    using parse_percent_total by blast
  obtain rt where rt: "parse_currency (?k ''Revenue Target'') = Inr rt"
    using parse_currency_total by blast
  obtain ac where ac: "parse_currency (?k ''Achieved'') = Inr ac"
    using parse_currency_total by blast
  obtain rr where rr: "parse_currency (?k ''Revenue Reached'') = Inr rr"
    using parse_currency_total by blast
  obtain tg where tg: "parse_currency (?k ''Target Of'') = Inr tg"
    using parse_currency_total by blast
  obtain rp where rp: "parse_percent (?k ''Revenue %'') = Inr rp"
    using parse_percent_total by blast
  obtain qs where qs: "parse_percent (?k ''Quality Score'') = Inr qs"
    using parse_percent_total by blast
  show ?thesis
    by (simp add: row_of_text_def Let_def and_then_def ar rt ac rr tg rp qs)
qed

lemma process_pptx_bytes_ok:
  "P b = Inr prs \<Longrightarrow> \<exists>row. process_pptx_bytes P b n = Inr row \<and> ppt_file row = n"
  using row_of_text_returns [of "deck_text prs" n]
  by (simp add: process_pptx_bytes_def and_then_def)

lemma process_pptx_bytes_fails:
  "P b = Inl e \<Longrightarrow> process_pptx_bytes P b n = Inl e"
  by (simp add: process_pptx_bytes_def and_then_def)

lemma process_pptx_bytes_name:
  assumes "process_pptx_bytes P b n = Inr row"
  shows "ppt_file row = n"
proof (cases "P b")
  case (Inl e)
  then have "process_pptx_bytes P b n = Inl e"
    by (simp add: process_pptx_bytes_def and_then_def)
  with assms show ?thesis by simp
next
  case (Inr prs)
  then have "process_pptx_bytes P b n = row_of_text (deck_text prs) n"
    by (simp add: process_pptx_bytes_def and_then_def)
  with assms row_of_text_returns [of "deck_text prs" n] show ?thesis by auto
qed

lemma collect_rows_rows:
  "rows (collect_rows P Z ups z)
     = successes (upload_result P) ups
       @ (case z of
            None \<Rightarrow> []
          | Some zb \<Rightarrow>
              (case Z zb of
                 Inl e \<Rightarrow> []
               | Inr zf \<Rightarrow>
                   successes (entry_result P zf)
                     (first_occurrences
                        (filter (\<lambda>n. is_pptx n \<and> n \<notin> uploaded_names P ups) (namelist zf)))))"
  by (simp add: collect_rows_def Let_def uploads_loop_rows zip_loop_rows uploads_loop_seen
      split: option.splits sum.splits)

lemma collect_rows_messages:
  "messages (collect_rows P Z ups z)
     = map (\<lambda>(f, e). FailedToProcess (name f) e) (failures (upload_result P) ups)
       @ (case z of
            None \<Rightarrow> []
          | Some zb \<Rightarrow>
              (case Z zb of
                 Inl e \<Rightarrow> [CouldNotReadZip e]
               | Inr zf \<Rightarrow>
                   map (\<lambda>(n, e). FailedToProcessFromZip n e)
                     (failures (entry_result P zf)
                        (filter (\<lambda>n. is_pptx n \<and> n \<notin> uploaded_names P ups) (namelist zf)))))"
  by (simp add: collect_rows_def Let_def uploads_loop_messages zip_loop_messages
      uploads_loop_seen split: option.splits sum.splits)

lemma process_files_table:
  "process_files P Z ups z
     = Inr \<lparr>table = map reconciled (rows (collect_rows P Z ups z)),
            shown = messages (collect_rows P Z ups z)
                    @ (if rows (collect_rows P Z ups z) = [] then [NoValidFiles] else [])\<rparr>"
  by (simp add: process_files_def Let_def reconcile_reconciled and_then_def)

text \<open>Two documents of the examples, read through \<open>demo_presentation\<close>.\<close>

lemma map_of_PATTERNS_keys:
  "map_of PATTERNS ''Achievement Rate'' = Some (pattern_of ''Achievement Rate'')"
  "map_of PATTERNS ''Revenue Target'' = Some (pattern_of ''Revenue Target'')"
  "map_of PATTERNS ''Achieved'' = Some (pattern_of ''Achieved'')"
  "map_of PATTERNS ''Revenue Reached'' = Some (pattern_of ''Revenue Reached'')"
  "map_of PATTERNS ''Target Of'' = Some (pattern_of ''Target Of'')"
  "map_of PATTERNS ''Revenue %'' = Some (pattern_of ''Revenue %'')"
  by (simp_all add: pattern_of_def PATTERNS_def)

text \<open>The row of a text, from what each pattern finds in it.\<close>

lemma row_of_text_searches:
  assumes "parse_percent (search (pattern_of ''Achievement Rate'') t) = Inr ar"
    "parse_currency (search (pattern_of ''Revenue Target'') t) = Inr rt"
    "parse_currency (search (pattern_of ''Achieved'') t) = Inr ac"
    "parse_currency (search (pattern_of ''Revenue Reached'') t) = Inr rr"
    "parse_currency (search (pattern_of ''Target Of'') t) = Inr tg"
    "parse_percent (search (pattern_of ''Revenue %'') t) = Inr rp"
    "parse_percent (case search (pattern_of ''Quality Score'') t of
                      Some g \<Rightarrow> Some g
                    | None \<Rightarrow> search (pattern_of ''Quality Score (alt)'') t) = Inr qs"
  shows "row_of_text t n =
           Inr \<lparr>ppt_file = n, achievement_rate = ar, revenue_target = rt, achieved = ac,
                revenue_reached = rr, target_of = tg, revenue_pct = rp, quality_score = qs\<rparr>"
  using assms
  by (simp add: row_of_text_def Let_def and_then_def extract_kpis_other_key
      extract_kpis_quality map_of_PATTERNS_keys)

lemma demo_deck_text:
  "b \<noteq> [] \<Longrightarrow> \<not> py_isspace (hd b) \<Longrightarrow> \<not> py_isspace (last b) \<Longrightarrow>
   and_then (demo_presentation b) (\<lambda>prs. Inr (deck_text prs)) = Inr b"
  by (simp add: demo_presentation_def and_then_def deck_text_def extract_runs_text_def
      strip_idem_ends)

lemma achieved_5_row:
  "process_pptx_bytes demo_presentation (ascii ''Achieved: 5'') n =
     Inr \<lparr>ppt_file = n, achievement_rate = None, revenue_target = None,
          achieved = Some (Fin 5), revenue_reached = None, target_of = None,
          revenue_pct = None, quality_score = None\<rparr>"
proof -
  let ?t = "ascii ''Achieved: 5''"
  have s: "search (pattern_of ''Achievement Rate'') ?t = None"
    "search (pattern_of ''Revenue Target'') ?t = None"
    "search (pattern_of ''Achieved'') ?t = Some (ascii ''5'')"
    "search (pattern_of ''Revenue Reached'') ?t = None"
    "search (pattern_of ''Target Of'') ?t = None"
    "search (pattern_of ''Revenue %'') ?t = None"
    "search (pattern_of ''Quality Score'') ?t = None"
    "search (pattern_of ''Quality Score (alt)'') ?t = None"
    by (simp_all add: ascii_def regex_eval)
  have p: "parse_currency (Some (ascii ''5'')) = Inr (Some (Fin 5))"
    "parse_currency None = Inr None" "parse_percent None = Inr None"
    by (simp_all add: parse_currency_def parse_percent_def float_eval)
  have r: "row_of_text ?t n =
     Inr \<lparr>ppt_file = n, achievement_rate = None, revenue_target = None,
          achieved = Some (Fin 5), revenue_reached = None, target_of = None,
          revenue_pct = None, quality_score = None\<rparr>"
    by (rule row_of_text_searches) (simp_all add: s p)
  have d: "demo_presentation ?t = Inr [Slide [Shape (Some [Para [Run (Some ?t)]])]]"
    by (simp add: demo_presentation_def ascii_def)
  have t: "deck_text [Slide [Shape (Some [Para [Run (Some ?t)]])]] = ?t"
    by (simp add: deck_text_def extract_runs_text_def strip_def trim_def py_isspace_def
        ascii_def)
  show ?thesis
    by (simp add: process_pptx_bytes_def and_then_def d t r)
qed

lemma achieved_7_row:
  "process_pptx_bytes demo_presentation (ascii ''Achieved: 7'') n =
     Inr \<lparr>ppt_file = n, achievement_rate = None, revenue_target = None,
          achieved = Some (Fin 7), revenue_reached = None, target_of = None,
          revenue_pct = None, quality_score = None\<rparr>"
proof -
  let ?t = "ascii ''Achieved: 7''"
  have s: "search (pattern_of ''Achievement Rate'') ?t = None"
    "search (pattern_of ''Revenue Target'') ?t = None"
    "search (pattern_of ''Achieved'') ?t = Some (ascii ''7'')"
    "search (pattern_of ''Revenue Reached'') ?t = None"
    "search (pattern_of ''Target Of'') ?t = None"
    "search (pattern_of ''Revenue %'') ?t = None"
    "search (pattern_of ''Quality Score'') ?t = None"
    "search (pattern_of ''Quality Score (alt)'') ?t = None"
    by (simp_all add: ascii_def regex_eval)
  have p: "parse_currency (Some (ascii ''7'')) = Inr (Some (Fin 7))"
    "parse_currency None = Inr None" "parse_percent None = Inr None"
    by (simp_all add: parse_currency_def parse_percent_def float_eval)
  have r: "row_of_text ?t n =
     Inr \<lparr>ppt_file = n, achievement_rate = None, revenue_target = None,
          achieved = Some (Fin 7), revenue_reached = None, target_of = None,
          revenue_pct = None, quality_score = None\<rparr>"
    by (rule row_of_text_searches) (simp_all add: s p)
  have d: "demo_presentation ?t = Inr [Slide [Shape (Some [Para [Run (Some ?t)]])]]"
    by (simp add: demo_presentation_def ascii_def)
  have t: "deck_text [Slide [Shape (Some [Para [Run (Some ?t)]])]] = ?t"
    by (simp add: deck_text_def extract_runs_text_def strip_def trim_def py_isspace_def
        ascii_def)
  show ?thesis
    by (simp add: process_pptx_bytes_def and_then_def d t r)
qed

lemma unreadable_fails:
  "process_pptx_bytes demo_presentation [] n = Inl (LibraryError 0)"
  by (simp add: process_pptx_bytes_def and_then_def demo_presentation_def)

text \<open>
  C5. The rows of a batch are the rows of the uploads that were processed without an
  exception, in upload order, followed by those of the archive entries that were, in the
  order of the archive's listing (entries that are decks by their name, not among the
  names already processed, each name at its first occurrence). Every failure is a
  message of its own, a failing archive is one message, and the table shown is the
  reconciliation of exactly these rows. Of three uploads of which the second cannot be
  read, the first and the third give the two rows, in this order, and the second one
  message.
\<close>

theorem batch_keeps_successes_in_order:
  "rows (collect_rows P Z ups z)
     = successes (upload_result P) ups
       @ (case z of
            None \<Rightarrow> []
          | Some zb \<Rightarrow>
              (case Z zb of
                 Inl e \<Rightarrow> []
               | Inr zf \<Rightarrow>
                   successes (entry_result P zf)
                     (first_occurrences
                        (filter (\<lambda>n. is_pptx n \<and> n \<notin> uploaded_names P ups) (namelist zf)))))
   \<and> messages (collect_rows P Z ups z)
     = map (\<lambda>(f, e). FailedToProcess (name f) e) (failures (upload_result P) ups)
       @ (case z of
            None \<Rightarrow> []
          | Some zb \<Rightarrow>
              (case Z zb of
                 Inl e \<Rightarrow> [CouldNotReadZip e]
               | Inr zf \<Rightarrow>
                   map (\<lambda>(n, e). FailedToProcessFromZip n e)
                     (failures (entry_result P zf)
                        (filter (\<lambda>n. is_pptx n \<and> n \<notin> uploaded_names P ups) (namelist zf)))))
   \<and> process_files P Z ups z
     = Inr \<lparr>table = map reconciled (rows (collect_rows P Z ups z)),
            shown = messages (collect_rows P Z ups z)
                    @ (if rows (collect_rows P Z ups z) = [] then [NoValidFiles] else [])\<rparr>
   \<and> map (\<lambda>r. (ppt_file r, achieved r))
        (rows (collect_rows demo_presentation Z
           [\<lparr>name = ascii ''a.pptx'', content = ascii ''Achieved: 5''\<rparr>,
            \<lparr>name = ascii ''b.pptx'', content = []\<rparr>,
            \<lparr>name = ascii ''c.pptx'', content = ascii ''Achieved: 7''\<rparr>] None))
     = [(ascii ''a.pptx'', Some (Fin 5)), (ascii ''c.pptx'', Some (Fin 7))]
   \<and> messages (collect_rows demo_presentation Z
           [\<lparr>name = ascii ''a.pptx'', content = ascii ''Achieved: 5''\<rparr>,
            \<lparr>name = ascii ''b.pptx'', content = []\<rparr>,
            \<lparr>name = ascii ''c.pptx'', content = ascii ''Achieved: 7''\<rparr>] None)
     = [FailedToProcess (ascii ''b.pptx'') (LibraryError 0)]"
proof -
  let ?ups = "[\<lparr>name = ascii ''a.pptx'', content = ascii ''Achieved: 5''\<rparr>,
            \<lparr>name = ascii ''b.pptx'', content = []\<rparr>,
            \<lparr>name = ascii ''c.pptx'', content = ascii ''Achieved: 7''\<rparr>]"
  have x: "map (\<lambda>r. (ppt_file r, achieved r)) (rows (collect_rows demo_presentation Z ?ups None))
      = [(ascii ''a.pptx'', Some (Fin 5)), (ascii ''c.pptx'', Some (Fin 7))]"
    by (simp add: collect_rows_rows upload_result_def achieved_5_row achieved_7_row
        unreadable_fails)
  have y: "messages (collect_rows demo_presentation Z ?ups None)
      = [FailedToProcess (ascii ''b.pptx'') (LibraryError 0)]"
    by (simp add: collect_rows_messages upload_result_def achieved_5_row achieved_7_row
        unreadable_fails)
  from collect_rows_rows [of P Z ups z] collect_rows_messages [of P Z ups z]
    process_files_table [of P Z ups z] x y
  show ?thesis by (intro conjI)
qed

text \<open>
  C1, on the code: two uploads with the same name, both readable. The loop over the
  uploads adds each name to \<open>seen\<close> and never looks a name up there, so both uploads
  give a row and the table has the name twice.
\<close>

theorem same_name_uploads_both_kept:
  "map (\<lambda>r. (ppt_file r, achieved r))
     (rows (collect_rows demo_presentation (\<lambda>b. Inl (LibraryError 1))
        [\<lparr>name = ascii ''a.pptx'', content = ascii ''Achieved: 5''\<rparr>,
         \<lparr>name = ascii ''a.pptx'', content = ascii ''Achieved: 7''\<rparr>] None))
   = [(ascii ''a.pptx'', Some (Fin 5)), (ascii ''a.pptx'', Some (Fin 7))]"
  by (simp add: collect_rows_def uploads_loop.simps achieved_5_row achieved_7_row)

text \<open>
  The archive entries, on the other hand, never repeat a name: the names of the rows
  they add are distinct, and none is the name of an upload that gave a row.
\<close>

lemma archive_rows_unique:
  assumes "Z zb = Inr zf"
  shows "\<exists>zrows. rows (collect_rows P Z ups (Some zb)) = successes (upload_result P) ups @ zrows
           \<and> distinct (map ppt_file zrows)
           \<and> set (map ppt_file zrows) \<inter> uploaded_names P ups = {}"
proof -
  let ?ns = "first_occurrences
      (filter (\<lambda>n. is_pptx n \<and> n \<notin> uploaded_names P ups) (namelist zf))"
  let ?z = "successes (entry_result P zf) ?ns"
  have name: "\<And>n r. entry_result P zf n = Inr r \<Longrightarrow> ppt_file r = n"
    by (auto simp: entry_result_def and_then_def split: sum.splits
        dest: process_pptx_bytes_name)
  have m: "\<And>xs. map ppt_file (successes (entry_result P zf) xs)
              = filter (\<lambda>n. \<not> isl (entry_result P zf n)) xs"
  proof -
    fix xs show "map ppt_file (successes (entry_result P zf) xs)
              = filter (\<lambda>n. \<not> isl (entry_result P zf n)) xs"
      by (induction xs) (auto split: sum.splits dest: name)
  qed
  have d: "distinct (map ppt_file ?z)"
    unfolding m by (intro distinct_filter distinct_first_occurrences)
  have "set (map ppt_file ?z) \<subseteq> set ?ns" unfolding m by auto
  then have i: "set (map ppt_file ?z) \<inter> uploaded_names P ups = {}"
    by (auto simp: set_first_occurrences)
  from assms have "rows (collect_rows P Z ups (Some zb)) = successes (upload_result P) ups @ ?z"
    by (simp add: collect_rows_rows)
  with d i show ?thesis by blast
qed

text \<open>
  C10. The names in \<open>seen\<close> after the uploads are those of the uploads that gave a row.
  So when every upload named \<open>n\<close> failed, \<open>n\<close> is not among them, and an entry \<open>n\<close> of
  the archive that is a deck by its name and is processed without an exception gives its
  row to the table.
\<close>

theorem failed_upload_leaves_name_free:
  assumes "\<forall>f\<in>set ups. name f = n \<longrightarrow> isl (upload_result P f)"
    and "Z zb = Inr zf" and "n \<in> set (namelist zf)" and "is_pptx n"
    and "entry_result P zf n = Inr row"
  shows "seen (uploads_loop P ups \<lparr>rows = [], seen = {}, messages = []\<rparr>) = uploaded_names P ups
         \<and> n \<notin> seen (uploads_loop P ups \<lparr>rows = [], seen = {}, messages = []\<rparr>)
         \<and> row \<in> set (rows (collect_rows P Z ups (Some zb)))"
proof -
  have s: "seen (uploads_loop P ups \<lparr>rows = [], seen = {}, messages = []\<rparr>) = uploaded_names P ups"
    by (simp add: uploads_loop_seen)
  from assms(1) have n: "n \<notin> uploaded_names P ups"
    by (auto simp: uploaded_names_def)
  let ?ns = "first_occurrences
      (filter (\<lambda>n. is_pptx n \<and> n \<notin> uploaded_names P ups) (namelist zf))"
  from assms(3,4) n have "n \<in> set ?ns"
    by (simp add: set_first_occurrences)
  from in_successes [of n ?ns "entry_result P zf" row, OF this assms(5)] assms(2)
  have "row \<in> set (rows (collect_rows P Z ups (Some zb)))"
    by (simp add: collect_rows_rows)
  with s n show ?thesis by simp
qed

theorem failed_upload_leaves_name_free_witness:
  "ascii ''a.pptx''
     \<notin> seen (uploads_loop demo_presentation [\<lparr>name = ascii ''a.pptx'', content = []\<rparr>]
              \<lparr>rows = [], seen = {}, messages = []\<rparr>)
   \<and> \<lparr>ppt_file = ascii ''a.pptx'', achievement_rate = None, revenue_target = None,
       achieved = Some (Fin 5), revenue_reached = None, target_of = None,
       revenue_pct = None, quality_score = None\<rparr>
     \<in> set (rows (collect_rows demo_presentation
                 (\<lambda>b. Inr \<lparr>namelist = [ascii ''a.pptx''],
                           read_entry = (\<lambda>n. Inr (ascii ''Achieved: 5''))\<rparr>)
                 [\<lparr>name = ascii ''a.pptx'', content = []\<rparr>] (Some [])))"
proof -
  let ?zf = "\<lparr>namelist = [ascii ''a.pptx''],
              read_entry = (\<lambda>n. Inr (ascii ''Achieved: 5'') :: exn + bytes)\<rparr>"
  have h1: "\<forall>f\<in>set [\<lparr>name = ascii ''a.pptx'', content = []\<rparr>].
              name f = ascii ''a.pptx'' \<longrightarrow> isl (upload_result demo_presentation f)"
    by (simp add: upload_result_def unreadable_fails)
  let ?row = "\<lparr>ppt_file = ascii ''a.pptx'', achievement_rate = None, revenue_target = None,
             achieved = Some (Fin 5), revenue_reached = None, target_of = None,
             revenue_pct = None, quality_score = None\<rparr>"
  have h3: "ascii ''a.pptx'' \<in> set (namelist ?zf)" by simp
  have h4: "is_pptx (ascii ''a.pptx'')"
    by (simp add: is_pptx_def endswith_def ascii_def ascii_lower_def)
  have h5: "entry_result demo_presentation ?zf (ascii ''a.pptx'')
      = Inr \<lparr>ppt_file = ascii ''a.pptx'', achievement_rate = None, revenue_target = None,
             achieved = Some (Fin 5), revenue_reached = None, target_of = None,
             revenue_pct = None, quality_score = None\<rparr>"
    by (simp add: entry_result_def and_then_def achieved_5_row)
  note t = failed_upload_leaves_name_free [of "[\<lparr>name = ascii ''a.pptx'', content = []\<rparr>]"
      "ascii ''a.pptx''" demo_presentation "\<lambda>b. Inr ?zf" "[]" ?zf ?row]
  from t [OF h1 refl h3 h4 h5] show ?thesis by blast
qed

end
